theory Spec2Isabelle
  imports Complex_Main
begin

section \<open>Damping operators of the geomagnetic field inversion\<close>

text \<open>
  A shallow embedding of \<^verbatim>\<open>damping_modules/damping.py\<close>: \<^verbatim>\<open>integrator\<close>,
  \<^verbatim>\<open>damp_matrix\<close> and \<^verbatim>\<open>damp_norm\<close>. Python integers are \<open>int\<close>, floating point
  numbers are idealised as \<open>real\<close> (exact arithmetic, no rounding, no inf or nan),
  one-dimensional arrays are lists and two-dimensional arrays are lists of rows.
  Every exception the code can raise is a value \<open>Inl e\<close> of the result type.
\<close>

subsection \<open>Errors and array access\<close>

datatype error =
    ValueError
  | IndexError
  | ZeroDivisionError
  | UnknownDampingMethod
  | NonFinite

text \<open>
  \<open>NonFinite\<close> is not a Python exception: it marks a non-empty array divided by a
  zero float, where numpy returns inf or nan entries with a warning. The real numbers
  have no such values, so the model stops there.
\<close>

definition wrap_index :: "nat \<Rightarrow> int \<Rightarrow> int" where
  \<comment> \<open>an index on an axis of length \<open>n\<close>: a negative one counts from the end\<close>
  "wrap_index n i = (if i < 0 then i + int n else i)"

definition np_index :: "'a list \<Rightarrow> int \<Rightarrow> error + 'a" where
  \<comment> \<open>\<^verbatim>\<open>a[i]\<close>: out of range raises IndexError\<close>
  "np_index xs i =
     (if 0 \<le> wrap_index (length xs) i \<and> wrap_index (length xs) i < int (length xs)
      then Inr (xs ! nat (wrap_index (length xs) i))
      else Inl IndexError)"

definition bind_err :: "error + 'a \<Rightarrow> ('a \<Rightarrow> error + 'b) \<Rightarrow> error + 'b" where
  \<comment> \<open>sequencing: an exception raised by the first step ends the computation\<close>
  "bind_err r f = (case r of Inl e \<Rightarrow> Inl e | Inr x \<Rightarrow> f x)"

definition np_index2 :: "'a list list \<Rightarrow> int \<Rightarrow> int \<Rightarrow> error + 'a" where
  \<comment> \<open>\<^verbatim>\<open>a[i, j]\<close> on a two-dimensional array.\<close>
  "np_index2 a i j = bind_err (np_index a i) (\<lambda>row. np_index row j)"

subsection \<open>Collaborators\<close>

text \<open>
  \<^verbatim>\<open>scipy.integrate.newton_cotes\<close>, \<^verbatim>\<open>bsplines.derivatives\<close> and \<^verbatim>\<open>dampingtype\<close> are
  not part of the file; the functions below take them as parameters. Of the pair
  returned by \<^verbatim>\<open>newton_cotes\<close> only the weights are used by the code.
\<close>

record collaborators =
  newton_cotes :: "int \<Rightarrow> error + real list"
  derivatives :: "real \<Rightarrow> int \<Rightarrow> int \<Rightarrow> error + real list list"
  dampingtype :: "int \<Rightarrow> string \<Rightarrow> bool \<Rightarrow> error + real list"

subsection \<open>integrator\<close>

definition spl_degree :: int where
  \<comment> \<open>\<^verbatim>\<open>spl_degree = 3\<close>, set at the head of each of the three functions\<close>
  "spl_degree = 3"

fun quadrature ::
  "real list \<Rightarrow> real list list \<Rightarrow> int \<Rightarrow> int \<Rightarrow> int \<Rightarrow> int list \<Rightarrow> real \<Rightarrow> error + real" where
  \<comment> \<open>the loop \<^verbatim>\<open>for stp in range(nc_order + 1)\<close>, \<open>iint_prod\<close> is the accumulator\<close>
  "quadrature newcot spl t spl1 spl2 [] iint_prod = Inr iint_prod"
| "quadrature newcot spl t spl1 spl2 (stp # stps) iint_prod =
     bind_err (np_index newcot stp) (\<lambda>w.
     bind_err (np_index2 spl (t - spl1) stp) (\<lambda>a.
     bind_err (np_index2 spl (t - spl2) stp) (\<lambda>b.
       quadrature newcot spl t spl1 spl2 stps (iint_prod + w * a * b))))"

fun intervals ::
  "real list \<Rightarrow> real list list \<Rightarrow> int \<Rightarrow> real \<Rightarrow> int \<Rightarrow> int \<Rightarrow> int list \<Rightarrow> real \<Rightarrow> error + real" where
  \<comment> \<open>the loop \<^verbatim>\<open>for t in range(low, high + 1)\<close>, \<open>int_prod\<close> is the accumulator\<close>
  "intervals newcot spl nc_order dt spl1 spl2 [] int_prod = Inr int_prod"
| "intervals newcot spl nc_order dt spl1 spl2 (t # ts) int_prod =
     bind_err (quadrature newcot spl t spl1 spl2 [0..nc_order] 0) (\<lambda>iint_prod.
       intervals newcot spl nc_order dt spl1 spl2 ts (int_prod + iint_prod * dt))"

definition integrator :: "collaborators \<Rightarrow> int \<Rightarrow> int \<Rightarrow> int \<Rightarrow> real \<Rightarrow> int \<Rightarrow> error + real" where
  "integrator env spl1 spl2 nr_splines t_step ddt =
     (let temp_degree = spl_degree - ddt;
          nc_order = 2 * temp_degree
      in bind_err (newton_cotes env nc_order) (\<lambda>newcot.
         let low = max (max spl1 spl2) spl_degree;
             high = min (min (spl1 + spl_degree) (spl2 + spl_degree)) (nr_splines - 1)
         in if nc_order = 0 then Inl ZeroDivisionError
            else let dt = t_step / real_of_int nc_order
                 in bind_err (derivatives env t_step (nc_order + 1) ddt) (\<lambda>spl.
                      intervals newcot spl nc_order dt spl1 spl2 [low..high] 0)))"

text \<open>The value of one unit interval and of the whole integral, read off the tables.\<close>

definition interval_sum :: "real list \<Rightarrow> real list list \<Rightarrow> int \<Rightarrow> int \<Rightarrow> int \<Rightarrow> int \<Rightarrow> real" where
  "interval_sum newcot spl nc_order spl1 spl2 t =
     (\<Sum>stp \<leftarrow> [0..nc_order].
        newcot ! nat stp * spl ! nat (t - spl1) ! nat stp * spl ! nat (t - spl2) ! nat stp)"

definition overlap_sum :: "real list \<Rightarrow> real list list \<Rightarrow> int \<Rightarrow> real \<Rightarrow> int \<Rightarrow> int \<Rightarrow> int \<Rightarrow> real" where
  "overlap_sum newcot spl nc_order dt spl1 spl2 nr_splines =
     (\<Sum>t \<leftarrow> [max (max spl1 spl2) 3..min (min (spl1 + 3) (spl2 + 3)) (nr_splines - 1)].
        interval_sum newcot spl nc_order spl1 spl2 t * dt)"

definition table_shape :: "nat \<Rightarrow> nat \<Rightarrow> 'a list list \<Rightarrow> bool" where
  \<comment> \<open>a two-dimensional array of \<open>r\<close> rows and \<open>c\<close> columns\<close>
  "table_shape r c a = (length a = r \<and> list_all (\<lambda>row. length row = c) a)"


subsection \<open>damp_matrix\<close>

definition ncols :: "'a list list \<Rightarrow> nat" where
  \<comment> \<open>the second dimension of a two-dimensional array given by its rows\<close>
  "ncols a = (case a of [] \<Rightarrow> 0 | row # _ \<Rightarrow> length row)"

definition np_zeros2 :: "int \<Rightarrow> int \<Rightarrow> error + real list list" where
  \<comment> \<open>\<^verbatim>\<open>np.zeros((r, c))\<close>: a negative dimension raises ValueError\<close>
  "np_zeros2 r c =
     (if r < 0 \<or> c < 0 then Inl ValueError
      else Inr (replicate (nat r) (replicate (nat c) 0)))"

definition np_diag :: "real list \<Rightarrow> real list list" where
  \<comment> \<open>\<^verbatim>\<open>np.diag(v)\<close> of a one-dimensional array\<close>
  "np_diag v = map (\<lambda>a. map (\<lambda>b. if a = b then v ! a else 0) [0..<length v]) [0..<length v]"

definition scale :: "real \<Rightarrow> real list list \<Rightarrow> real list list" where
  \<comment> \<open>scalar times array\<close>
  "scale s a = map (map (\<lambda>x. s * x)) a"

definition slice_bound :: "nat \<Rightarrow> int \<Rightarrow> nat" where
  \<comment> \<open>a bound of a slice on an axis of length \<open>n\<close>: negative counts from the end, then clipped\<close>
  "slice_bound n i = (if i < 0 then nat (max 0 (int n + i)) else nat (min i (int n)))"

definition assign_block ::
  "real list list \<Rightarrow> int \<Rightarrow> int \<Rightarrow> int \<Rightarrow> int \<Rightarrow> real list list \<Rightarrow> error + real list list" where
  \<comment> \<open>\<^verbatim>\<open>m[r0:r1, c0:c1] = rhs\<close>; \<open>rhs\<close> is broadcast to the shape of the slice
      (an axis of length one is repeated), any other mismatch raises ValueError\<close>
  "assign_block m r0 r1 c0 c1 rhs =
     (let lo_r = slice_bound (length m) r0; hi_r = slice_bound (length m) r1;
          lo_c = slice_bound (ncols m) c0; hi_c = slice_bound (ncols m) c1;
          rh = length rhs; rw = ncols rhs
      in if (rh = hi_r - lo_r \<or> rh = 1) \<and> (rw = hi_c - lo_c \<or> rw = 1)
         then Inr (map (\<lambda>a. map (\<lambda>b.
                if lo_r \<le> a \<and> a < hi_r \<and> lo_c \<le> b \<and> b < hi_c
                then rhs ! (if rh = 1 then 0 else a - lo_r) ! (if rw = 1 then 0 else b - lo_c)
                else m ! a ! b) [0..<ncols m]) [0..<length m])
         else Inl ValueError)"

fun fill_blocks ::
  "collaborators \<Rightarrow> int \<Rightarrow> int \<Rightarrow> real \<Rightarrow> real \<Rightarrow> int \<Rightarrow> real list \<Rightarrow> int \<Rightarrow> int list
     \<Rightarrow> real list list \<Rightarrow> error + real list list" where
  \<comment> \<open>the loop \<^verbatim>\<open>for spl2 in range(max(0, spl1 - spl_degree), min(spl1 + spl_degree + 1, nr_splines))\<close>\<close>
  "fill_blocks env nm_total nr_splines t_step damp_factor ddt damp_diag spl1 [] matrix = Inr matrix"
| "fill_blocks env nm_total nr_splines t_step damp_factor ddt damp_diag spl1 (spl2 # rest) matrix =
     bind_err (integrator env spl1 spl2 nr_splines t_step ddt) (\<lambda>spl_integral.
     bind_err (assign_block matrix (spl1 * nm_total) ((spl1 + 1) * nm_total)
                 (spl2 * nm_total) ((spl2 + 1) * nm_total)
                 (scale (damp_factor * spl_integral) (np_diag damp_diag))) (\<lambda>matrix'.
       fill_blocks env nm_total nr_splines t_step damp_factor ddt damp_diag spl1 rest matrix'))"

fun fill_rows ::
  "collaborators \<Rightarrow> int \<Rightarrow> int \<Rightarrow> real \<Rightarrow> real \<Rightarrow> int \<Rightarrow> real list \<Rightarrow> int list
     \<Rightarrow> real list list \<Rightarrow> error + real list list" where
  \<comment> \<open>the loop \<^verbatim>\<open>for spl1 in range(nr_splines)\<close>\<close>
  "fill_rows env nm_total nr_splines t_step damp_factor ddt damp_diag [] matrix = Inr matrix"
| "fill_rows env nm_total nr_splines t_step damp_factor ddt damp_diag (spl1 # rest) matrix =
     bind_err (fill_blocks env nm_total nr_splines t_step damp_factor ddt damp_diag spl1
                 [max 0 (spl1 - spl_degree)..min (spl1 + spl_degree + 1) nr_splines - 1] matrix)
       (\<lambda>matrix'. fill_rows env nm_total nr_splines t_step damp_factor ddt damp_diag rest matrix')"

definition damp_matrix ::
  "collaborators \<Rightarrow> int \<Rightarrow> int \<Rightarrow> real \<Rightarrow> real \<Rightarrow> string \<Rightarrow> int \<Rightarrow> bool
     \<Rightarrow> error + (real list list \<times> real list)" where
  "damp_matrix env max_degree nr_splines t_step damp_factor damp_type ddt damp_dipole =
     (let nm_total = (max_degree + 1) ^ 2 - 1
      in bind_err (np_zeros2 (nm_total * nr_splines) (nm_total * nr_splines)) (\<lambda>matrix.
           if damp_factor \<noteq> 0
           then bind_err (dampingtype env max_degree damp_type damp_dipole) (\<lambda>damp_diag.
                bind_err (fill_rows env nm_total nr_splines t_step damp_factor ddt damp_diag
                            [0..nr_splines - 1] matrix) (\<lambda>matrix'.
                  Inr (matrix', damp_diag)))
           else Inr (matrix, [])))"

text \<open>
  The value that the two loops of \<open>damp_matrix\<close> leave at position \<open>(a, b)\<close> of a
  block they visit: the factor, times the integral of the pair of splines of the
  block, times the entry of the diagonal array (broadcast when it has one entry).
\<close>

definition integral_value :: "collaborators \<Rightarrow> int \<Rightarrow> int \<Rightarrow> int \<Rightarrow> real \<Rightarrow> int \<Rightarrow> real" where
  "integral_value env spl1 spl2 nr_splines t_step ddt =
     (case integrator env spl1 spl2 nr_splines t_step ddt of Inl e \<Rightarrow> 0 | Inr v \<Rightarrow> v)"

definition block_entry :: "real list \<Rightarrow> nat \<Rightarrow> nat \<Rightarrow> real" where
  "block_entry damp_diag x y =
     (if length damp_diag = 1 then damp_diag ! 0 else if x = y then damp_diag ! x else 0)"

definition block_value ::
  "collaborators \<Rightarrow> nat \<Rightarrow> int \<Rightarrow> real \<Rightarrow> real \<Rightarrow> int \<Rightarrow> real list \<Rightarrow> nat \<Rightarrow> nat \<Rightarrow> real" where
  "block_value env nm nr_splines t_step damp_factor ddt damp_diag a b =
     damp_factor
       * integral_value env (int (a div nm)) (int (b div nm)) nr_splines t_step ddt
       * block_entry damp_diag (a mod nm) (b mod nm)"

subsection \<open>damp_norm\<close>

definition matmul_vec :: "real list \<Rightarrow> real list list \<Rightarrow> error + real list" where
  \<comment> \<open>\<^verbatim>\<open>np.matmul(v, a)\<close> of a vector with a two-dimensional array\<close>
  "matmul_vec v a =
     (if length v \<noteq> length a then Inl ValueError
      else Inr (map (\<lambda>c. \<Sum>s \<leftarrow> [0..<length v]. v ! s * a ! s ! c) [0..<ncols a]))"

definition np_dot :: "real list \<Rightarrow> real list \<Rightarrow> error + real" where
  \<comment> \<open>\<^verbatim>\<open>np.dot(x, y)\<close> of two one-dimensional arrays\<close>
  "np_dot x y =
     (if length x \<noteq> length y then Inl ValueError
      else Inr (\<Sum>i \<leftarrow> [0..<length x]. x ! i * y ! i))"

definition np_slice :: "'a list \<Rightarrow> int \<Rightarrow> int \<Rightarrow> 'a list" where
  \<comment> \<open>\<^verbatim>\<open>a[i:j]\<close>\<close>
  "np_slice xs i j =
     (let lo = slice_bound (length xs) i; hi = slice_bound (length xs) j
      in take (hi - lo) (drop lo xs))"

definition np_setitem :: "'a list \<Rightarrow> int \<Rightarrow> 'a \<Rightarrow> error + 'a list" where
  \<comment> \<open>\<^verbatim>\<open>a[i] = v\<close>\<close>
  "np_setitem xs i v =
     (if 0 \<le> wrap_index (length xs) i \<and> wrap_index (length xs) i < int (length xs)
      then Inr (xs[nat (wrap_index (length xs) i) := v])
      else Inl IndexError)"

definition np_vstack :: "'a list list \<Rightarrow> 'a list list \<Rightarrow> error + 'a list list" where
  \<comment> \<open>\<^verbatim>\<open>np.vstack((a, b))\<close> with \<open>a\<close> not empty: the rows must have one length\<close>
  "np_vstack a b =
     (if list_all (\<lambda>row. length row = ncols a) b then Inr (a @ b) else Inl ValueError)"

definition np_divide :: "real list \<Rightarrow> real \<Rightarrow> error + real list" where
  \<comment> \<open>array divided by a float\<close>
  "np_divide xs d =
     (if d = 0 \<and> xs \<noteq> [] then Inl NonFinite else Inr (map (\<lambda>x. x / d) xs))"

fun norm_loop ::
  "real list \<Rightarrow> real list \<Rightarrow> real list list \<Rightarrow> int list \<Rightarrow> real list \<Rightarrow> error + real list" where
  \<comment> \<open>the loop \<^verbatim>\<open>for t in range(len(coeff))\<close>, \<open>norms\<close> is the array \<^verbatim>\<open>norm\<close> it fills\<close>
  "norm_loop damp_fac spl coeffsp [] norms = Inr norms"
| "norm_loop damp_fac spl coeffsp (t # ts) norms =
     bind_err (matmul_vec spl (np_slice coeffsp t (t + (spl_degree + 1)))) (\<lambda>g_spl.
     bind_err (np_dot damp_fac (map (\<lambda>x. x ^ 2) g_spl)) (\<lambda>v.
     bind_err (np_setitem norms t v) (\<lambda>norms'.
       norm_loop damp_fac spl coeffsp ts norms')))"

definition damp_norm ::
  "collaborators \<Rightarrow> real list \<Rightarrow> real list list \<Rightarrow> int \<Rightarrow> real \<Rightarrow> error + real list" where
  "damp_norm env damp_fac coeff ddt t_step =
     bind_err (derivatives env t_step 1 ddt) (\<lambda>table.
       let spl = concat table;
           norms = replicate (length coeff) 0
       in bind_err (np_index coeff 0) (\<lambda>row0.
          bind_err (np_vstack (replicate (nat spl_degree) (replicate (length row0) 0)) coeff)
            (\<lambda>coeffsp.
          bind_err (norm_loop damp_fac spl coeffsp [0..int (length coeff) - 1] norms) (\<lambda>norms'.
            np_divide (np_slice norms' spl_degree (int (length norms'))) t_step))))"

text \<open>The entry that one pass of the loop of \<open>damp_norm\<close> stores, read off the arrays.\<close>

definition norm_entry :: "real list \<Rightarrow> real list \<Rightarrow> real list list \<Rightarrow> nat \<Rightarrow> real" where
  "norm_entry damp_fac spl coeffsp t =
     (\<Sum>i \<leftarrow> [0..<length damp_fac].
        damp_fac ! i * (\<Sum>s \<leftarrow> [0..<length spl]. spl ! s * coeffsp ! (t + s) ! i) ^ 2)"

subsection \<open>An instance of the collaborators\<close>

text \<open>
  The general theorems below hold for every value of \<open>collaborators\<close>. The instance
  here is used to evaluate the functions on concrete inputs.
\<close>

definition times_linear :: "real list \<Rightarrow> real \<Rightarrow> real list" where
  \<comment> \<open>the polynomial \<open>(x - j) * p\<close>, coefficients from the constant term up\<close>
  "times_linear p j = map2 (+) (0 # p) (map (\<lambda>c. - j * c) p @ [0])"

definition node_poly :: "int \<Rightarrow> int \<Rightarrow> real list" where
  \<comment> \<open>the product of \<open>(x - j)\<close> over the nodes \<open>j \<noteq> i\<close> of \<open>0..N\<close>\<close>
  "node_poly N i =
     foldr (\<lambda>j p. times_linear p (real_of_int j)) (filter (\<lambda>j. j \<noteq> i) [0..N]) [1]"

definition poly_integral :: "real list \<Rightarrow> real \<Rightarrow> real" where
  \<comment> \<open>the integral of the polynomial from 0 to \<open>x\<close>\<close>
  "poly_integral p x = (\<Sum>k \<leftarrow> [0..<length p]. p ! k * x ^ (k + 1) / real (k + 1))"

definition cotes_weight :: "int \<Rightarrow> int \<Rightarrow> real" where
  \<comment> \<open>the integral over \<open>[0, N]\<close> of the Lagrange polynomial of node \<open>i\<close>\<close>
  "cotes_weight N i =
     poly_integral (node_poly N i) (real_of_int N)
       / (\<Prod>j \<leftarrow> filter (\<lambda>j. j \<noteq> i) [0..N]. real_of_int (i - j))"

definition scipy_newton_cotes :: "int \<Rightarrow> error + real list" where
  \<comment> \<open>the weights of \<^verbatim>\<open>scipy.integrate.newton_cotes(N)\<close> for an integer \<open>N\<close>: the closed
      Newton-Cotes rule on \<open>N + 1\<close> nodes of spacing one (the weights sum to \<open>N\<close>);
      \<open>N = 0\<close> raises ValueError (the logarithm of zero) and a negative \<open>N\<close> raises
      IndexError (the first element of an empty range)\<close>
  "scipy_newton_cotes N =
     (if N < 0 then Inl IndexError
      else if N = 0 then Inl ValueError
      else Inr (map (cotes_weight N) [0..N]))"

definition bspline_pieces :: "real list list" where
  \<comment> \<open>the four cubic pieces of the uniform B-spline on a unit interval, by the offset
      of the interval in the support; coefficients from the constant term up\<close>
  "bspline_pieces =
     [[0, 0, 0, 1 / 6],
      [1 / 6, 1 / 2, 1 / 2, - 1 / 2],
      [2 / 3, 0, - 1, 1 / 2],
      [1 / 6, - 1 / 2, 1 / 2, - 1 / 6]]"

fun poly_deriv :: "real list \<Rightarrow> real list" where
  "poly_deriv [] = []"
| "poly_deriv (c # cs) = map (\<lambda>k. real (Suc k) * cs ! k) [0..<length cs]"

definition poly_eval :: "real list \<Rightarrow> real \<Rightarrow> real" where
  "poly_eval p x = foldr (\<lambda>c acc. c + x * acc) p 0"

definition sample_points :: "int \<Rightarrow> real list" where
  \<comment> \<open>\<open>n\<close> equally spaced points of the unit interval, the single point being 0\<close>
  "sample_points n =
     (if n = 1 then [0] else map (\<lambda>k. real_of_int k / real_of_int (n - 1)) [0..n - 1])"

definition bspline_derivatives :: "real \<Rightarrow> int \<Rightarrow> int \<Rightarrow> error + real list list" where
  \<comment> \<open>Modelled from the spec: \<^verbatim>\<open>bsplines.derivatives(t_step, n, d)\<close>, the
      BSplineDerivativeEvaluator of section 6, is not among the sources. It returns
      the table \<open>[shift][point]\<close> of the derivative of order \<open>d\<close> of the cubic B-spline
      pieces at \<open>n\<close> equally spaced points of one knot interval, by exact polynomial
      evaluation. The spec does not say what it does for a negative \<open>n\<close> or \<open>d\<close> or a
      zero step; they are errors here.\<close>
  "bspline_derivatives t_step n d =
     (if n < 0 \<or> d < 0 then Inl ValueError
      else if t_step = 0 then Inl ZeroDivisionError
      else Inr (map (\<lambda>p. map (\<lambda>u. poly_eval ((poly_deriv ^^ nat d) p) u / t_step ^ nat d)
                              (sample_points n)) bspline_pieces))"

definition uniform_dampingtype :: "int \<Rightarrow> string \<Rightarrow> bool \<Rightarrow> error + real list" where
  \<comment> \<open>Modelled from the spec: \<^verbatim>\<open>dampingtype(max_degree, damp_type, damp_dipole)\<close>, the
      DampingWeightProfile of section 6, is not among the sources. It returns one
      non-negative weight per coefficient, \<open>(max_degree + 1)\<^sup>2 - 1\<close> of them; the
      Uniform profile has equal positive weights, and without \<open>damp_dipole\<close> the
      weights of the three coefficients of degree one are zero. The spec gives no
      formula for the other six profiles: this instance knows Uniform only.\<close>
  "uniform_dampingtype max_degree damp_type damp_dipole =
     (if damp_type = ''Uniform''
      then let nm_total = nat ((max_degree + 1) ^ 2 - 1)
           in Inr (if damp_dipole then replicate nm_total 1
                   else replicate (min 3 nm_total) 0 @ replicate (nm_total - 3) 1)
      else Inl UnknownDampingMethod)"

definition reference_env :: collaborators where
  "reference_env =
     \<lparr>newton_cotes = scipy_newton_cotes,
      derivatives = bspline_derivatives,
      dampingtype = uniform_dampingtype\<rparr>"

subsection \<open>Array access and the quadrature loops\<close>

lemma bind_err_Inr [simp]: "bind_err (Inr x) f = f x"
  by (simp add: bind_err_def)

lemma bind_err_Inl [simp]: "bind_err (Inl e) f = Inl e"
  by (simp add: bind_err_def)

lemma np_index_in_range:
  "0 \<le> i \<Longrightarrow> i < int (length xs) \<Longrightarrow> np_index xs i = Inr (xs ! nat i)"
  by (simp add: np_index_def wrap_index_def)

lemma np_index2_in_range:
  assumes "table_shape r c a" "0 \<le> i" "i < int r" "0 \<le> j" "j < int c"
  shows "np_index2 a i j = Inr (a ! nat i ! nat j)"
proof -
  have len: "length a = r" and rows: "\<forall>row \<in> set a. length row = c"
    using assms(1) by (simp_all add: table_shape_def list_all_iff)
  have "nat i < length a" using assms(2,3) len by simp
  then have "length (a ! nat i) = c" using rows by simp
  then show ?thesis
    using assms(2-5) len by (simp add: np_index2_def np_index_in_range)
qed

lemma quadrature_sum:
  assumes "table_shape 4 c spl" "length newcot = c"
    and "0 \<le> t - spl1" "t - spl1 \<le> 3" "0 \<le> t - spl2" "t - spl2 \<le> 3"
    and "\<forall>stp \<in> set stps. 0 \<le> stp \<and> stp < int c"
  shows "quadrature newcot spl t spl1 spl2 stps acc =
           Inr (acc + (\<Sum>stp \<leftarrow> stps.
              newcot ! nat stp * spl ! nat (t - spl1) ! nat stp * spl ! nat (t - spl2) ! nat stp))"
  using assms(7)
proof (induction stps arbitrary: acc)
  case Nil
  show ?case by simp
next
  case (Cons stp stps)
  have stp: "0 \<le> stp" "stp < int c" using Cons.prems by simp_all
  have a: "np_index2 spl (t - spl1) stp = Inr (spl ! nat (t - spl1) ! nat stp)"
    using assms(1,3,4) stp by (intro np_index2_in_range[where r = 4 and c = c]) simp_all
  have b: "np_index2 spl (t - spl2) stp = Inr (spl ! nat (t - spl2) ! nat stp)"
    using assms(1,5,6) stp by (intro np_index2_in_range[where r = 4 and c = c]) simp_all
  have w: "np_index newcot stp = Inr (newcot ! nat stp)"
    using stp assms(2) by (simp add: np_index_in_range)
  have rest: "\<forall>s \<in> set stps. 0 \<le> s \<and> s < int c" using Cons.prems by simp
  show ?case
    by (simp add: a b w Cons.IH[OF rest] add.assoc)
qed

lemma intervals_sum:
  assumes "table_shape 4 (nat (nc_order + 1)) spl" "length newcot = nat (nc_order + 1)"
    and "\<forall>t \<in> set ts. 0 \<le> t - spl1 \<and> t - spl1 \<le> 3 \<and> 0 \<le> t - spl2 \<and> t - spl2 \<le> 3"
  shows "intervals newcot spl nc_order dt spl1 spl2 ts acc =
           Inr (acc + (\<Sum>t \<leftarrow> ts. interval_sum newcot spl nc_order spl1 spl2 t * dt))"
  using assms(3)
proof (induction ts arbitrary: acc)
  case Nil
  show ?case by simp
next
  case (Cons t ts)
  have t: "0 \<le> t - spl1" "t - spl1 \<le> 3" "0 \<le> t - spl2" "t - spl2 \<le> 3"
    using Cons.prems by simp_all
  have cols: "\<forall>stp \<in> set [0..nc_order]. 0 \<le> stp \<and> stp < int (nat (nc_order + 1))"
    by auto
  have q: "quadrature newcot spl t spl1 spl2 [0..nc_order] 0 =
             Inr (interval_sum newcot spl nc_order spl1 spl2 t)"
    using quadrature_sum[OF assms(1,2) t cols, of 0] by (simp add: interval_sum_def)
  have rest: "\<forall>u \<in> set ts. 0 \<le> u - spl1 \<and> u - spl1 \<le> 3 \<and> 0 \<le> u - spl2 \<and> u - spl2 \<le> 3"
    using Cons.prems by simp
  show ?case
    by (simp add: q Cons.IH[OF rest] add.assoc)
qed

lemma integrator_unfold:
  assumes "newton_cotes env (2 * (3 - ddt)) = Inr newcot"
    and "derivatives env t_step (2 * (3 - ddt) + 1) ddt = Inr spl"
    and "ddt \<noteq> 3"
  shows "integrator env spl1 spl2 nr_splines t_step ddt =
           intervals newcot spl (2 * (3 - ddt)) (t_step / real_of_int (2 * (3 - ddt))) spl1 spl2
             [max (max spl1 spl2) 3..min (min (spl1 + 3) (spl2 + 3)) (nr_splines - 1)] 0"
  using assms by (simp add: integrator_def spl_degree_def Let_def)

lemma integrator_overlap_sum:
  assumes "newton_cotes env (2 * (3 - ddt)) = Inr newcot"
    and "derivatives env t_step (2 * (3 - ddt) + 1) ddt = Inr spl"
    and "ddt \<noteq> 3"
    and "table_shape 4 (nat (2 * (3 - ddt) + 1)) spl"
    and "length newcot = nat (2 * (3 - ddt) + 1)"
  shows "integrator env spl1 spl2 nr_splines t_step ddt =
           Inr (overlap_sum newcot spl (2 * (3 - ddt)) (t_step / real_of_int (2 * (3 - ddt)))
                  spl1 spl2 nr_splines)"
proof -
  have rng: "\<forall>t \<in> set [max (max spl1 spl2) 3..min (min (spl1 + 3) (spl2 + 3)) (nr_splines - 1)].
               0 \<le> t - spl1 \<and> t - spl1 \<le> 3 \<and> 0 \<le> t - spl2 \<and> t - spl2 \<le> 3"
    by auto
  show ?thesis
    unfolding integrator_unfold[OF assms(1-3)] overlap_sum_def
    using intervals_sum[OF assms(4,5) rng, of _ 0] by simp
qed

subsection \<open>The instance at the tables of the cubic rule\<close>

lemma reference_newton_cotes_6:
  "newton_cotes reference_env 6 = Inr [41/140, 54/35, 27/140, 68/35, 27/140, 54/35, 41/140]"
  unfolding reference_env_def by code_simp

lemma reference_derivatives_7:
  "derivatives reference_env 1 7 0 = Inr
     [[0, 1 / 1296, 1 / 162, 1 / 48, 4 / 81, 125 / 1296, 1 / 6],
      [1 / 6, 113 / 432, 10 / 27, 23 / 48, 31 / 54, 277 / 432, 2 / 3],
      [2 / 3, 277 / 432, 31 / 54, 23 / 48, 10 / 27, 113 / 432, 1 / 6],
      [1 / 6, 125 / 1296, 4 / 81, 1 / 48, 1 / 162, 1 / 1296, 0]]"
  unfolding reference_env_def by code_simp

text \<open>
  The instance is the cubic B-spline: the integral of the square of a spline whose
  support lies inside the time domain is \<open>151 / 315\<close>, and of the product of
  two neighbours \<open>397 / 1680\<close>.
\<close>

lemma reference_self_overlap: "integrator reference_env 3 3 8 1 0 = Inr (151 / 315)"
  by code_simp

lemma reference_neighbour_overlap: "integrator reference_env 3 4 8 1 0 = Inr (397 / 1680)"
  by code_simp

subsection \<open>Claims about integrator\<close>

text \<open>
  C1. When the two collaborators return their tables, \<open>integrator\<close> runs its
  quadrature loop over exactly the unit intervals \<open>t\<close> from
  \<open>low = max(spl1, spl2, 3)\<close> to \<open>high = min(spl1 + 3, spl2 + 3, nr_splines - 1)\<close>,
  returns 0 when \<open>low > high\<close>, and so returns 0, without failing, for every pair
  of indices more than 3 apart.
\<close>

theorem integrator_interval_range:
  assumes "newton_cotes env (2 * (3 - ddt)) = Inr newcot"
    and "derivatives env t_step (2 * (3 - ddt) + 1) ddt = Inr spl"
    and "ddt \<noteq> 3"
  shows "integrator env spl1 spl2 nr_splines t_step ddt =
           intervals newcot spl (2 * (3 - ddt)) (t_step / real_of_int (2 * (3 - ddt))) spl1 spl2
             [max (max spl1 spl2) 3..min (min (spl1 + 3) (spl2 + 3)) (nr_splines - 1)] 0
         \<and> (min (min (spl1 + 3) (spl2 + 3)) (nr_splines - 1) < max (max spl1 spl2) 3
              \<longrightarrow> integrator env spl1 spl2 nr_splines t_step ddt = Inr 0)
         \<and> (3 < \<bar>spl1 - spl2\<bar> \<longrightarrow> integrator env spl1 spl2 nr_splines t_step ddt = Inr 0)"
proof -
  let ?low = "max (max spl1 spl2) 3"
  let ?high = "min (min (spl1 + 3) (spl2 + 3)) (nr_splines - 1)"
  note unf = integrator_unfold[OF assms, of spl1 spl2 nr_splines]
  have empty: "?high < ?low \<Longrightarrow> integrator env spl1 spl2 nr_splines t_step ddt = Inr 0"
    by (simp add: unf)
  have far: "3 < \<bar>spl1 - spl2\<bar> \<Longrightarrow> ?high < ?low"
    by linarith
  show ?thesis
    using unf empty far by blast
qed

theorem integrator_interval_range_witness:
  "3 < \<bar>(0::int) - 5\<bar> \<and> integrator reference_env 0 5 8 1 0 = Inr 0"
  using integrator_interval_range[of reference_env 0 _ 1 _ 0 5 8]
    reference_newton_cotes_6 reference_derivatives_7
  by simp

text \<open>
  C9. For \<open>ddt\<close> in \<open>{0, 1, 2}\<close>, a derivative table of 4 rows and
  \<open>nc_order + 1\<close> columns and as many weights, every read of the loops is in
  bounds: the rows \<open>t - spl1\<close> and \<open>t - spl2\<close> lie in \<open>[0, 3]\<close>, the column
  \<open>stp\<close> lies in \<open>[0, nc_order]\<close>, each read returns the entry at that position,
  and \<open>integrator\<close> returns the sum of the products read.
\<close>

theorem integrator_reads_in_bounds:
  assumes "newton_cotes env (2 * (3 - ddt)) = Inr newcot"
    and "derivatives env t_step (2 * (3 - ddt) + 1) ddt = Inr spl"
    and "0 \<le> ddt" "ddt \<le> 2"
    and "table_shape 4 (nat (2 * (3 - ddt) + 1)) spl"
    and "length newcot = nat (2 * (3 - ddt) + 1)"
  shows "list_all (\<lambda>t. list_all (\<lambda>stp.
             0 \<le> t - spl1 \<and> t - spl1 \<le> 3 \<and> 0 \<le> t - spl2 \<and> t - spl2 \<le> 3
           \<and> 0 \<le> stp \<and> stp \<le> 2 * (3 - ddt)
           \<and> np_index newcot stp = Inr (newcot ! nat stp)
           \<and> np_index2 spl (t - spl1) stp = Inr (spl ! nat (t - spl1) ! nat stp)
           \<and> np_index2 spl (t - spl2) stp = Inr (spl ! nat (t - spl2) ! nat stp))
             [0..2 * (3 - ddt)])
           [max (max spl1 spl2) 3..min (min (spl1 + 3) (spl2 + 3)) (nr_splines - 1)]
         \<and> integrator env spl1 spl2 nr_splines t_step ddt =
             Inr (overlap_sum newcot spl (2 * (3 - ddt)) (t_step / real_of_int (2 * (3 - ddt)))
                    spl1 spl2 nr_splines)"
proof -
  have reads: "0 \<le> t - spl1 \<and> t - spl1 \<le> 3 \<and> 0 \<le> t - spl2 \<and> t - spl2 \<le> 3
           \<and> 0 \<le> stp \<and> stp \<le> 2 * (3 - ddt)
           \<and> np_index newcot stp = Inr (newcot ! nat stp)
           \<and> np_index2 spl (t - spl1) stp = Inr (spl ! nat (t - spl1) ! nat stp)
           \<and> np_index2 spl (t - spl2) stp = Inr (spl ! nat (t - spl2) ! nat stp)"
    if t: "t \<in> set [max (max spl1 spl2) 3..min (min (spl1 + 3) (spl2 + 3)) (nr_splines - 1)]"
      and stp: "stp \<in> set [0..2 * (3 - ddt)]" for t stp
  proof -
    have rows: "0 \<le> t - spl1" "t - spl1 \<le> 3" "0 \<le> t - spl2" "t - spl2 \<le> 3"
      using t by auto
    have cols: "0 \<le> stp" "stp \<le> 2 * (3 - ddt)" "stp < int (nat (2 * (3 - ddt) + 1))"
      using stp by auto
    have "np_index newcot stp = Inr (newcot ! nat stp)"
      using cols assms(6) by (simp add: np_index_in_range)
    moreover have "np_index2 spl (t - spl1) stp = Inr (spl ! nat (t - spl1) ! nat stp)"
      using rows cols by (intro np_index2_in_range[OF assms(5)]) simp_all
    moreover have "np_index2 spl (t - spl2) stp = Inr (spl ! nat (t - spl2) ! nat stp)"
      using rows cols by (intro np_index2_in_range[OF assms(5)]) simp_all
    ultimately show ?thesis using rows cols by simp
  qed
  have "ddt \<noteq> 3" using assms(4) by simp
  from integrator_overlap_sum[OF assms(1,2) this assms(5,6)] reads
  show ?thesis
    unfolding list_all_iff by blast
qed

theorem integrator_reads_in_bounds_witness:
  "integrator reference_env 3 4 8 1 0 = Inr (397 / 1680)"
  using integrator_reads_in_bounds[of reference_env 0 _ 1 _ 3 4 8]
    reference_newton_cotes_6 reference_derivatives_7
  by (simp add: table_shape_def overlap_sum_def interval_sum_def upto.simps)

subsection \<open>The loop of damp_norm\<close>

lemma np_slice_window:
  assumes "0 \<le> t" "nat t + 4 \<le> length xs"
  shows "np_slice xs t (t + (spl_degree + 1)) = take 4 (drop (nat t) xs)"
proof -
  have le: "t + 4 \<le> int (length xs)" using assms by linarith
  have lo: "slice_bound (length xs) t = nat t"
    using assms(1) le by (simp add: slice_bound_def min_def)
  have hi: "slice_bound (length xs) (t + 4) = nat t + 4"
    using assms(1) le by (simp add: slice_bound_def min_def nat_add_distrib)
  show ?thesis
    by (simp add: np_slice_def spl_degree_def lo hi)
qed

lemma ncols_nonempty: "a \<noteq> [] \<Longrightarrow> ncols a = length (a ! 0)"
  by (cases a) (simp_all add: ncols_def)

lemma norm_step_matmul:
  assumes "length spl = 4" "0 \<le> t" "nat t + 4 \<le> length coeffsp"
    and "\<forall>row \<in> set coeffsp. length row = n"
  shows "matmul_vec spl (np_slice coeffsp t (t + (spl_degree + 1))) =
           Inr (map (\<lambda>c. \<Sum>s \<leftarrow> [0..<length spl]. spl ! s * coeffsp ! (nat t + s) ! c) [0..<n])"
proof -
  let ?w = "take 4 (drop (nat t) coeffsp)"
  have len: "length ?w = 4" using assms(3) by simp
  have nth: "?w ! s = coeffsp ! (nat t + s)" if "s < 4" for s
    using that assms(3) by simp
  have "?w \<noteq> []" using len by auto
  then have "ncols ?w = length (?w ! 0)" by (rule ncols_nonempty)
  also have "\<dots> = length (coeffsp ! (nat t + 0))" using nth[of 0] by simp
  also have "\<dots> = n" using assms(3,4) by simp
  finally have nc: "ncols ?w = n" .
  have inner: "(\<Sum>s \<leftarrow> [0..<4]. spl ! s * ?w ! s ! c) =
               (\<Sum>s \<leftarrow> [0..<4]. spl ! s * coeffsp ! (nat t + s) ! c)" for c
    by (rule arg_cong[where f = sum_list], rule map_cong) (simp_all add: nth del: nth_take)
  show ?thesis
    unfolding np_slice_window[OF assms(2,3)] matmul_vec_def
    using len nc inner assms(1) by simp
qed

lemma norm_step_dot:
  assumes "length g = length damp_fac"
  shows "np_dot damp_fac (map (\<lambda>x. x ^ 2) g) =
           Inr (\<Sum>i \<leftarrow> [0..<length damp_fac]. damp_fac ! i * (g ! i) ^ 2)"
proof -
  have "(\<Sum>i \<leftarrow> [0..<length damp_fac]. damp_fac ! i * map (\<lambda>x. x ^ 2) g ! i) =
        (\<Sum>i \<leftarrow> [0..<length damp_fac]. damp_fac ! i * (g ! i) ^ 2)"
    by (rule arg_cong[where f = sum_list], rule map_cong) (simp_all add: assms)
  then show ?thesis by (simp add: np_dot_def assms)
qed

lemma norm_step:
  assumes "length spl = 4" "0 \<le> t" "nat t + 4 \<le> length coeffsp"
    and "\<forall>row \<in> set coeffsp. length row = length damp_fac"
  shows "\<exists>g_spl. matmul_vec spl (np_slice coeffsp t (t + (spl_degree + 1))) = Inr g_spl
           \<and> np_dot damp_fac (map (\<lambda>x. x ^ 2) g_spl) =
               Inr (norm_entry damp_fac spl coeffsp (nat t))"
proof -
  let ?g = "map (\<lambda>c. \<Sum>s \<leftarrow> [0..<length spl]. spl ! s * coeffsp ! (nat t + s) ! c)
              [0..<length damp_fac]"
  have "(\<Sum>i \<leftarrow> [0..<length damp_fac]. damp_fac ! i * (?g ! i) ^ 2) =
        norm_entry damp_fac spl coeffsp (nat t)"
    unfolding norm_entry_def
    by (rule arg_cong[where f = sum_list], rule map_cong) simp_all
  then show ?thesis
    using norm_step_matmul[OF assms] norm_step_dot[of ?g damp_fac] by simp
qed

lemma norm_loop_entries:
  assumes "length spl = 4" "length coeffsp = length norms + 3"
    and "\<forall>row \<in> set coeffsp. length row = length damp_fac"
    and "\<forall>t \<in> set ts. 0 \<le> t \<and> t < int (length norms)"
  shows "\<exists>norms'. norm_loop damp_fac spl coeffsp ts norms = Inr norms'
           \<and> length norms' = length norms
           \<and> (\<forall>k < length norms. norms' ! k =
                 (if int k \<in> set ts then norm_entry damp_fac spl coeffsp k else norms ! k))"
  using assms(2,4)
proof (induction ts arbitrary: norms)
  case Nil
  show ?case by simp
next
  case (Cons t ts)
  have t: "0 \<le> t" "t < int (length norms)" using Cons.prems(2) by simp_all
  have fit: "nat t + 4 \<le> length coeffsp" using t Cons.prems(1) by simp
  let ?v = "norm_entry damp_fac spl coeffsp (nat t)"
  let ?n1 = "norms[nat t := ?v]"
  have set1: "np_setitem norms t ?v = Inr ?n1"
    using t by (simp add: np_setitem_def wrap_index_def)
  from norm_step[OF assms(1) t(1) fit assms(3)] obtain g_spl where
    g: "matmul_vec spl (np_slice coeffsp t (t + (spl_degree + 1))) = Inr g_spl"
    and d: "np_dot damp_fac (map (\<lambda>x. x ^ 2) g_spl) = Inr ?v"
    by blast
  have step: "norm_loop damp_fac spl coeffsp (t # ts) norms =
              norm_loop damp_fac spl coeffsp ts ?n1"
    by (simp add: g d set1)
  have len1: "length coeffsp = length ?n1 + 3" using Cons.prems(1) by simp
  have rest: "\<forall>u \<in> set ts. 0 \<le> u \<and> u < int (length ?n1)" using Cons.prems(2) by simp
  from Cons.IH[OF len1 rest] obtain norms' where
    r: "norm_loop damp_fac spl coeffsp ts ?n1 = Inr norms'"
    and l: "length norms' = length ?n1"
    and e: "\<forall>k < length ?n1. norms' ! k =
              (if int k \<in> set ts then norm_entry damp_fac spl coeffsp k else ?n1 ! k)"
    by blast
  have "norms' ! k = (if int k \<in> set (t # ts) then norm_entry damp_fac spl coeffsp k
                      else norms ! k)" if k: "k < length norms" for k
  proof (cases "int k = t")
    case True
    then have "nat t = k" by simp
    then show ?thesis using e k True by (auto simp: nth_list_update)
  next
    case False
    then have "nat t \<noteq> k" using t by auto
    then show ?thesis using e k False by (auto simp: nth_list_update)
  qed
  then show ?case using step r l by simp
qed

lemma norm_loop_all:
  assumes "length spl = 4" "length coeffsp = T + 3"
    and "\<forall>row \<in> set coeffsp. length row = length damp_fac"
  shows "norm_loop damp_fac spl coeffsp [0..int T - 1] (replicate T 0) =
           Inr (map (norm_entry damp_fac spl coeffsp) [0..<T])"
proof -
  have rng: "\<forall>t \<in> set [0..int T - 1]. 0 \<le> t \<and> t < int (length (replicate T (0::real)))"
    by auto
  from norm_loop_entries[OF assms(1) _ assms(3) rng] assms(2) obtain norms' where
    r: "norm_loop damp_fac spl coeffsp [0..int T - 1] (replicate T 0) = Inr norms'"
    and l: "length norms' = T"
    and e: "\<forall>k < T. norms' ! k =
              (if int k \<in> set [0..int T - 1] then norm_entry damp_fac spl coeffsp k
               else replicate T 0 ! k)"
    by auto
  have "norms' = map (norm_entry damp_fac spl coeffsp) [0..<T]"
  proof (rule nth_equalityI)
    show "length norms' = length (map (norm_entry damp_fac spl coeffsp) [0..<T])"
      using l by simp
  next
    fix k assume "k < length norms'"
    then have k: "k < T" using l by simp
    then have "int k \<in> set [0..int T - 1]" by auto
    then show "norms' ! k = map (norm_entry damp_fac spl coeffsp) [0..<T] ! k"
      using e k by simp
  qed
  then show ?thesis using r by simp
qed

lemma damp_norm_value:
  assumes "derivatives env t_step 1 ddt = Inr table" "length (concat table) = 4"
    and "coeff \<noteq> []" "list_all (\<lambda>row. length row = length damp_fac) coeff"
    and "t_step \<noteq> 0 \<or> length coeff \<le> 3"
  shows "damp_norm env damp_fac coeff ddt t_step =
           Inr (map (\<lambda>x. x / t_step)
                  (drop 3 (map (norm_entry damp_fac (concat table)
                                  (replicate 3 (replicate (length damp_fac) 0) @ coeff))
                             [0..<length coeff])))"
proof -
  let ?n = "length damp_fac"
  let ?sp = "replicate 3 (replicate ?n 0) @ coeff"
  let ?norms = "map (norm_entry damp_fac (concat table) ?sp) [0..<length coeff]"
  have rows: "\<forall>row \<in> set coeff. length row = ?n"
    using assms(4) by (simp add: list_all_iff)
  have row0: "np_index coeff 0 = Inr (coeff ! 0)"
    using assms(3) by (simp add: np_index_in_range)
  have n0: "length (coeff ! 0) = ?n"
    using rows assms(3) by simp
  have stack: "np_vstack (replicate (nat spl_degree) (replicate ?n 0)) coeff = Inr ?sp"
    using assms(4) by (simp add: np_vstack_def spl_degree_def ncols_def numeral_3_eq_3)
  have sprows: "\<forall>row \<in> set ?sp. length row = ?n"
    using rows by auto
  have loop: "norm_loop damp_fac (concat table) ?sp [0..int (length coeff) - 1]
                (replicate (length coeff) 0) = Inr ?norms"
    by (rule norm_loop_all[OF assms(2) _ sprows]) simp
  have sl: "np_slice ?norms spl_degree (int (length coeff)) = drop 3 ?norms"
    by (simp add: np_slice_def slice_bound_def spl_degree_def min_def del: drop_map)
  have dv: "np_divide (drop 3 ?norms) t_step = Inr (map (\<lambda>x. x / t_step) (drop 3 ?norms))"
    using assms(5) by (auto simp: np_divide_def)
  show ?thesis
    unfolding damp_norm_def
    by (simp add: assms(1) row0 n0 stack loop Let_def sl dv del: drop_map map_map)
qed

lemma norm_entry_nonneg:
  assumes "list_all (\<lambda>w. 0 \<le> w) damp_fac"
  shows "0 \<le> norm_entry damp_fac spl coeffsp t"
proof -
  have "0 \<le> damp_fac ! i" if "i < length damp_fac" for i
    using assms that by (simp add: list_all_length)
  then show ?thesis
    unfolding norm_entry_def by (intro sum_list_nonneg) auto
qed

lemma norm_entry_zero:
  assumes "\<forall>s < length spl. \<forall>i < length damp_fac. coeffsp ! (t + s) ! i = 0"
  shows "norm_entry damp_fac spl coeffsp t = 0"
proof -
  have inner: "(\<Sum>s \<leftarrow> [0..<length spl]. spl ! s * coeffsp ! (t + s) ! i) = 0"
    if "i < length damp_fac" for i
  proof -
    have "map (\<lambda>s. spl ! s * coeffsp ! (t + s) ! i) [0..<length spl] =
          map (\<lambda>s. 0) [0..<length spl]"
      by (rule map_cong) (simp_all add: assms that)
    then have "(\<Sum>s \<leftarrow> [0..<length spl]. spl ! s * coeffsp ! (t + s) ! i) =
               sum_list (map (\<lambda>s. 0) [0..<length spl])"
      by (rule arg_cong)
    then show ?thesis by simp
  qed
  have "map (\<lambda>i. damp_fac ! i * (\<Sum>s \<leftarrow> [0..<length spl]. spl ! s * coeffsp ! (t + s) ! i) ^ 2)
          [0..<length damp_fac] = map (\<lambda>i. 0) [0..<length damp_fac]"
    by (rule map_cong) (simp_all add: inner)
  then have "norm_entry damp_fac spl coeffsp t = sum_list (map (\<lambda>i. 0) [0..<length damp_fac])"
    unfolding norm_entry_def by (rule arg_cong)
  then show ?thesis by simp
qed

lemma reference_derivatives_1:
  "derivatives reference_env 1 1 0 = Inr [[0], [1 / 6], [2 / 3], [1 / 6]]"
  unfolding reference_env_def by code_simp

subsection \<open>Claims about damp_norm\<close>

text \<open>
  C7. For non-negative weights, a coefficient series of \<open>T \<ge> 3\<close> rows as long as
  the weight vector, a stencil of four entries and \<open>t_step > 0\<close>, the loop of
  \<open>damp_norm\<close> fills a sequence of \<open>T\<close> entries, and \<open>damp_norm\<close> returns that
  sequence without its first 3 entries, every remaining entry divided by \<open>t_step\<close>,
  in the same order: \<open>T - 3\<close> scalars, none of them negative.
\<close>

theorem damp_norm_sequence:
  assumes "derivatives env t_step 1 ddt = Inr table" "length (concat table) = 4"
    and "list_all (\<lambda>w. 0 \<le> w) damp_fac"
    and "3 \<le> length coeff" "list_all (\<lambda>row. length row = length damp_fac) coeff"
    and "0 < t_step"
  shows "\<exists>norms.
           norm_loop damp_fac (concat table) (replicate 3 (replicate (length damp_fac) 0) @ coeff)
             [0..int (length coeff) - 1] (replicate (length coeff) 0) = Inr norms
         \<and> length norms = length coeff
         \<and> damp_norm env damp_fac coeff ddt t_step = Inr (map (\<lambda>x. x / t_step) (drop 3 norms))
         \<and> length (map (\<lambda>x. x / t_step) (drop 3 norms)) = length coeff - 3
         \<and> list_all (\<lambda>x. 0 \<le> x) (map (\<lambda>x. x / t_step) (drop 3 norms))"
proof -
  let ?sp = "replicate 3 (replicate (length damp_fac) 0) @ coeff"
  let ?norms = "map (norm_entry damp_fac (concat table) ?sp) [0..<length coeff]"
  have rows: "\<forall>row \<in> set ?sp. length row = length damp_fac"
    using assms(5) by (auto simp: list_all_iff)
  have loop: "norm_loop damp_fac (concat table) ?sp [0..int (length coeff) - 1]
                (replicate (length coeff) 0) = Inr ?norms"
    by (rule norm_loop_all[OF assms(2) _ rows]) simp
  have ne: "coeff \<noteq> []" using assms(4) by auto
  have val: "damp_norm env damp_fac coeff ddt t_step =
               Inr (map (\<lambda>x. x / t_step) (drop 3 ?norms))"
    using damp_norm_value[OF assms(1,2) ne assms(5)] assms(6) by simp
  have pos: "list_all (\<lambda>x. 0 \<le> x) (map (\<lambda>x. x / t_step) (drop 3 ?norms))"
    using assms(6) norm_entry_nonneg[OF assms(3)]
    by (auto simp: list_all_iff dest!: in_set_dropD)
  have len: "length (map (\<lambda>x. x / t_step) (drop 3 ?norms)) = length coeff - 3"
    by simp
  have "length ?norms = length coeff" by simp
  with loop val pos len show ?thesis by blast
qed

theorem damp_norm_sequence_witness:
  "(3::nat) \<le> length [[1, 0, 0], [0, 2, 0], [0, 0, 3], [1, 1, 1 :: real]]
   \<and> (\<exists>norms.
        norm_loop [1, 1, 1] (concat [[0], [1 / 6], [2 / 3], [1 / 6]])
          (replicate 3 (replicate (length [1, 1, 1 :: real]) 0)
             @ [[1, 0, 0], [0, 2, 0], [0, 0, 3], [1, 1, 1]])
          [0..int (length [[1, 0, 0], [0, 2, 0], [0, 0, 3], [1, 1, 1 :: real]]) - 1]
          (replicate (length [[1, 0, 0], [0, 2, 0], [0, 0, 3], [1, 1, 1 :: real]]) 0) = Inr norms
      \<and> length norms = length [[1, 0, 0], [0, 2, 0], [0, 0, 3], [1, 1, 1 :: real]]
      \<and> damp_norm reference_env [1, 1, 1] [[1, 0, 0], [0, 2, 0], [0, 0, 3], [1, 1, 1]] 0 1 =
          Inr (map (\<lambda>x. x / 1) (drop 3 norms))
      \<and> length (map (\<lambda>x. x / (1::real)) (drop 3 norms)) =
          length [[1, 0, 0], [0, 2, 0], [0, 0, 3], [1, 1, 1 :: real]] - 3
      \<and> list_all (\<lambda>x. 0 \<le> x) (map (\<lambda>x. x / 1) (drop 3 norms)))"
proof
  show "(3::nat) \<le> length [[1, 0, 0], [0, 2, 0], [0, 0, 3], [1, 1, 1 :: real]]" by simp
  show "\<exists>norms.
        norm_loop [1, 1, 1] (concat [[0], [1 / 6], [2 / 3], [1 / 6]])
          (replicate 3 (replicate (length [1, 1, 1 :: real]) 0)
             @ [[1, 0, 0], [0, 2, 0], [0, 0, 3], [1, 1, 1]])
          [0..int (length [[1, 0, 0], [0, 2, 0], [0, 0, 3], [1, 1, 1 :: real]]) - 1]
          (replicate (length [[1, 0, 0], [0, 2, 0], [0, 0, 3], [1, 1, 1 :: real]]) 0) = Inr norms
      \<and> length norms = length [[1, 0, 0], [0, 2, 0], [0, 0, 3], [1, 1, 1 :: real]]
      \<and> damp_norm reference_env [1, 1, 1] [[1, 0, 0], [0, 2, 0], [0, 0, 3], [1, 1, 1]] 0 1 =
          Inr (map (\<lambda>x. x / 1) (drop 3 norms))
      \<and> length (map (\<lambda>x. x / (1::real)) (drop 3 norms)) =
          length [[1, 0, 0], [0, 2, 0], [0, 0, 3], [1, 1, 1 :: real]] - 3
      \<and> list_all (\<lambda>x. 0 \<le> x) (map (\<lambda>x. x / 1) (drop 3 norms))"
    by (rule damp_norm_sequence[OF reference_derivatives_1]) simp_all
qed


text \<open>
  C8. For every weight vector and \<open>t_step \<noteq> 0\<close>, an all-zero coefficient series
  of \<open>T\<close> rows (at least one) gives an all-zero sequence of \<open>T - 3\<close> entries.
\<close>

theorem damp_norm_zero_series:
  assumes "derivatives env t_step 1 ddt = Inr table" "length (concat table) = 4"
    and "0 < T" "t_step \<noteq> 0"
  shows "damp_norm env damp_fac (replicate T (replicate (length damp_fac) 0)) ddt t_step =
           Inr (replicate (T - 3) 0)"
proof -
  let ?z = "replicate (length damp_fac) (0::real)"
  let ?sp = "replicate 3 ?z @ replicate T ?z"
  have sp: "?sp = replicate (T + 3) ?z"
    by (simp add: replicate_add[symmetric] add.commute)
  have zero: "norm_entry damp_fac (concat table) ?sp t = 0" if "t < T" for t
    unfolding sp by (rule norm_entry_zero) (use that assms(2) in simp)
  have "map (norm_entry damp_fac (concat table) ?sp) [0..<T] = map (\<lambda>t. 0) [0..<T]"
    by (rule map_cong) (simp_all add: zero)
  then have norms: "map (norm_entry damp_fac (concat table) ?sp) [0..<T] = replicate T 0"
    by (simp add: map_replicate_const)
  have "damp_norm env damp_fac (replicate T ?z) ddt t_step =
          Inr (map (\<lambda>x. x / t_step) (drop 3 (replicate T 0)))"
    using damp_norm_value[OF assms(1,2), of "replicate T ?z" damp_fac] assms(3,4) norms
    by (simp add: list_all_iff del: drop_map)
  then show ?thesis by simp
qed

theorem damp_norm_zero_series_witness:
  "(0::nat) < 5 \<and> (1::real) \<noteq> 0
   \<and> damp_norm reference_env [1, 2, 3] (replicate 5 (replicate (length [1, 2, 3 :: real]) 0)) 0 1 =
       Inr (replicate (5 - 3) 0)"
  using damp_norm_zero_series[OF reference_derivatives_1, of 5 "[1, 2, 3]"]
  by simp

text \<open>
  C10, as amended. For a coefficient series of one, two or three rows \<open>damp_norm\<close>
  returns the empty sequence; for a series of no rows it raises IndexError, at
  \<^verbatim>\<open>len(coeff[0])\<close>.
\<close>

theorem damp_norm_short_series:
  assumes "derivatives env t_step 1 ddt = Inr table" "length (concat table) = 4"
    and "length coeff \<le> 3" "list_all (\<lambda>row. length row = length damp_fac) coeff"
  shows "damp_norm env damp_fac coeff ddt t_step =
           (if coeff = [] then Inl IndexError else Inr [])"
proof (cases "coeff = []")
  case True
  then show ?thesis
    by (simp add: damp_norm_def assms(1) np_index_def wrap_index_def)
next
  case False
  then show ?thesis
    using damp_norm_value[OF assms(1,2) False assms(4)] assms(3) by simp
qed

theorem damp_norm_short_series_witness:
  "length [[1, 2, 3 :: real], [4, 5, 6]] \<le> 3
   \<and> damp_norm reference_env [1, 1, 1] [[1, 2, 3], [4, 5, 6]] 0 1 = Inr []"
  using damp_norm_short_series[OF reference_derivatives_1, of "[[1, 2, 3], [4, 5, 6]]" "[1, 1, 1]"]
  by simp

text \<open>
  C10 as stated fails for \<open>T = 0\<close>: the empty series raises IndexError.
\<close>

theorem damp_norm_empty_series_counterexample:
  "damp_norm reference_env [1, 1, 1] [] 0 1 = Inl IndexError"
  by (simp add: damp_norm_def reference_derivatives_1 np_index_def wrap_index_def)

subsection \<open>Blocks of the damping matrix\<close>

lemma ncols_table: "table_shape n n m \<Longrightarrow> ncols m = n"
  by (cases m) (auto simp: table_shape_def ncols_def)


lemma assign_block_shape:
  "assign_block m r0 r1 c0 c1 rhs = Inr m' \<Longrightarrow> table_shape (length m) (ncols m) m'"
  by (auto simp: assign_block_def Let_def table_shape_def list_all_iff split: if_splits)

lemma assign_block_entry:
  assumes "assign_block m r0 r1 c0 c1 rhs = Inr m'" "a < length m" "b < ncols m"
  shows "m' ! a ! b =
     (if slice_bound (length m) r0 \<le> a \<and> a < slice_bound (length m) r1
          \<and> slice_bound (ncols m) c0 \<le> b \<and> b < slice_bound (ncols m) c1
      then rhs ! (if length rhs = 1 then 0 else a - slice_bound (length m) r0)
               ! (if ncols rhs = 1 then 0 else b - slice_bound (ncols m) c0)
      else m ! a ! b)"
  using assms by (auto simp: assign_block_def Let_def split: if_splits)

lemma assign_block_fits:
  assumes "assign_block m r0 r1 c0 c1 rhs = Inr m'"
  shows "(length rhs = slice_bound (length m) r1 - slice_bound (length m) r0 \<or> length rhs = 1)
       \<and> (ncols rhs = slice_bound (ncols m) c1 - slice_bound (ncols m) c0 \<or> ncols rhs = 1)"
  using assms by (auto simp: assign_block_def Let_def split: if_splits)

lemma slice_bound_nat: "q \<le> n \<Longrightarrow> slice_bound n (int q) = q"
  by (simp add: slice_bound_def min_def)

lemma block_bounds:
  assumes "i < nr"
  shows "slice_bound (nm * nr) (int i * int nm) = i * nm"
    and "slice_bound (nm * nr) ((int i + 1) * int nm) = i * nm + nm"
proof -
  have "Suc i \<le> nr" using assms by simp
  then have "Suc i * nm \<le> nr * nm" by (rule mult_le_mono1)
  then have le: "i * nm + nm \<le> nm * nr" by (simp add: mult.commute)
  have e1: "int i * int nm = int (i * nm)" by simp
  have e2: "(int i + 1) * int nm = int (i * nm + nm)" by (simp add: algebra_simps)
  show "slice_bound (nm * nr) (int i * int nm) = i * nm"
    unfolding e1 using le by (intro slice_bound_nat) linarith
  show "slice_bound (nm * nr) ((int i + 1) * int nm) = i * nm + nm"
    unfolding e2 using le by (intro slice_bound_nat)
qed

lemma in_block_iff:
  assumes "0 < nm"
  shows "(i * nm \<le> a \<and> a < i * nm + nm) \<longleftrightarrow> a div nm = (i::nat)"
proof
  assume "i * nm \<le> a \<and> a < i * nm + nm"
  then show "a div nm = i"
    by (intro div_nat_eqI) (simp_all add: mult.commute)
next
  assume d: "a div nm = i"
  have "a div nm * nm \<le> a" by simp
  moreover have "a < a div nm * nm + nm"
    using assms by (metis add.commute dividend_less_div_times)
  ultimately show "i * nm \<le> a \<and> a < i * nm + nm" using d by simp
qed

lemma in_block_offset: "a div nm = (i::nat) \<Longrightarrow> a - i * nm = a mod nm"
  by (metis minus_div_mult_eq_mod)

lemma np_diag_shape: "table_shape (length d) (length d) (np_diag d)"
  by (simp add: np_diag_def table_shape_def list_all_iff)

lemma scale_shape: "table_shape r c m \<Longrightarrow> table_shape r c (scale s m)"
  by (simp add: scale_def table_shape_def list_all_iff)

lemma scale_diag_entry:
  "x < length d \<Longrightarrow> y < length d \<Longrightarrow>
     scale s (np_diag d) ! x ! y = s * (if x = y then d ! x else 0)"
  by (simp add: scale_def np_diag_def)








lemma assign_diag_block:
  assumes sq: "table_shape (nm * nr) (nm * nr) m" and i: "i < nr" and j: "j < nr"
    and res: "assign_block m (int i * int nm) ((int i + 1) * int nm)
                (int j * int nm) ((int j + 1) * int nm) (scale s (np_diag d)) = Inr m'"
  shows "table_shape (nm * nr) (nm * nr) m'
       \<and> (length d = nm \<or> length d = 1)
       \<and> (\<forall>a < nm * nr. \<forall>b < nm * nr. m' ! a ! b =
            (if a div nm = i \<and> b div nm = j
             then s * block_entry d (a mod nm) (b mod nm) else m ! a ! b))"
proof -
  have len: "length m = nm * nr" using sq by (simp add: table_shape_def)
  have nc: "ncols m = nm * nr" using sq by (rule ncols_table)
  have rshape: "table_shape (length d) (length d) (scale s (np_diag d))"
    by (intro scale_shape np_diag_shape)
  have rl: "length (scale s (np_diag d)) = length d"
    using rshape by (simp add: table_shape_def)
  have rc: "ncols (scale s (np_diag d)) = length d"
    using rshape by (rule ncols_table)
  have shape: "table_shape (nm * nr) (nm * nr) m'"
    using assign_block_shape[OF res] len nc by simp
  have fits: "length d = nm \<or> length d = 1"
    using assign_block_fits[OF res] by (simp add: len rl block_bounds[OF i])
  have entry: "m' ! a ! b =
            (if a div nm = i \<and> b div nm = j
             then s * block_entry d (a mod nm) (b mod nm) else m ! a ! b)"
    if a: "a < nm * nr" and b: "b < nm * nr" for a b
  proof -
    have pos: "0 < nm" using a by (cases nm) simp_all
    have raw: "m' ! a ! b =
      (if i * nm \<le> a \<and> a < i * nm + nm \<and> j * nm \<le> b \<and> b < j * nm + nm
       then scale s (np_diag d) ! (if length d = 1 then 0 else a - i * nm)
                                ! (if length d = 1 then 0 else b - j * nm)
       else m ! a ! b)"
      using assign_block_entry[OF res, of a b] a b
      by (simp add: len nc rl rc block_bounds[OF i] block_bounds[OF j])
    show ?thesis
    proof (cases "a div nm = i \<and> b div nm = j")
      case False
      then show ?thesis
        using raw in_block_iff[OF pos, of i a] in_block_iff[OF pos, of j b] by auto
    next
      case True
      then have inb: "i * nm \<le> a \<and> a < i * nm + nm" "j * nm \<le> b \<and> b < j * nm + nm"
        using in_block_iff[OF pos, of i a] in_block_iff[OF pos, of j b] by simp_all
      have off: "a - i * nm = a mod nm" "b - j * nm = b mod nm"
        using True by (simp_all add: in_block_offset)
      show ?thesis
      proof (cases "length d = 1")
        case True
        then show ?thesis
          using raw inb \<open>a div nm = i \<and> b div nm = j\<close>
          by (simp add: scale_diag_entry block_entry_def)
      next
        case False
        then have "length d = nm" using fits by simp
        then have "a mod nm < length d" "b mod nm < length d" using pos by simp_all
        then show ?thesis
          using raw inb \<open>a div nm = i \<and> b div nm = j\<close> False off
          by (simp add: scale_diag_entry block_entry_def)
      qed
    qed
  qed
  show ?thesis using shape fits entry by blast
qed

lemma assign_diag_block_returns:
  assumes sq: "table_shape (nm * nr) (nm * nr) m" and i: "i < nr" and j: "j < nr"
    and d: "length d = nm \<or> length d = 1"
  shows "\<exists>m'. assign_block m (int i * int nm) ((int i + 1) * int nm)
                (int j * int nm) ((int j + 1) * int nm) (scale s (np_diag d)) = Inr m'"
proof -
  have len: "length m = nm * nr" using sq by (simp add: table_shape_def)
  have nc: "ncols m = nm * nr" using sq by (rule ncols_table)
  have rshape: "table_shape (length d) (length d) (scale s (np_diag d))"
    by (intro scale_shape np_diag_shape)
  have rl: "length (scale s (np_diag d)) = length d"
    using rshape by (simp add: table_shape_def)
  have rc: "ncols (scale s (np_diag d)) = length d"
    using rshape by (rule ncols_table)
  show ?thesis
    using d unfolding assign_block_def Let_def
    by (simp add: len nc rl rc block_bounds[OF i] block_bounds[OF j])
qed


lemma fill_blocks_entries:
  assumes "i < nr" "\<forall>j \<in> set js. 0 \<le> j \<and> j < int nr"
    and "table_shape (nm * nr) (nm * nr) m"
    and "fill_blocks env (int nm) (int nr) t_step c ddt d (int i) js m = Inr m'"
  shows "table_shape (nm * nr) (nm * nr) m'
       \<and> (\<forall>a < nm * nr. \<forall>b < nm * nr. m' ! a ! b =
            (if a div nm = i \<and> int (b div nm) \<in> set js
             then block_value env nm (int nr) t_step c ddt d a b else m ! a ! b))"
  using assms(2-4)
proof (induction js arbitrary: m)
  case Nil
  then show ?case by simp
next
  case (Cons spl2 js)
  have "0 \<le> spl2" "spl2 < int nr" using Cons.prems(1) by simp_all
  then have "spl2 = int (nat spl2)" "nat spl2 < nr" by simp_all
  then obtain j where j: "spl2 = int j" "j < nr" by blast
  from Cons.prems(3) obtain v where
    v: "integrator env (int i) spl2 (int nr) t_step ddt = Inr v"
    by (cases "integrator env (int i) spl2 (int nr) t_step ddt") simp_all
  from Cons.prems(3) v obtain m1 where
    m1: "assign_block m (int i * int nm) ((int i + 1) * int nm)
           (int j * int nm) ((int j + 1) * int nm) (scale (c * v) (np_diag d)) = Inr m1"
    and rest: "fill_blocks env (int nm) (int nr) t_step c ddt d (int i) js m1 = Inr m'"
    unfolding j(1)
    by (cases "assign_block m (int i * int nm) ((int i + 1) * int nm)
           (int j * int nm) ((int j + 1) * int nm) (scale (c * v) (np_diag d))") simp_all
  note blk = assign_diag_block[OF Cons.prems(2) assms(1) j(2) m1]
  have js: "\<forall>j \<in> set js. 0 \<le> j \<and> j < int nr" using Cons.prems(1) by simp
  note ih = Cons.IH[OF js _ rest]
  have shape1: "table_shape (nm * nr) (nm * nr) m1" using blk by simp
  have iv: "integral_value env (int i) (int j) (int nr) t_step ddt = v"
    using v j(1) by (simp add: integral_value_def)
  have "m' ! a ! b =
            (if a div nm = i \<and> int (b div nm) \<in> set (spl2 # js)
             then block_value env nm (int nr) t_step c ddt d a b else m ! a ! b)"
    if ab: "a < nm * nr" "b < nm * nr" for a b
  proof -
    have e1: "m1 ! a ! b = (if a div nm = i \<and> b div nm = j
             then (c * v) * block_entry d (a mod nm) (b mod nm) else m ! a ! b)"
      using blk ab by simp
    have e2: "m' ! a ! b = (if a div nm = i \<and> int (b div nm) \<in> set js
             then block_value env nm (int nr) t_step c ddt d a b else m1 ! a ! b)"
      using ih[OF shape1] ab by simp
    have bv: "a div nm = i \<Longrightarrow> b div nm = j \<Longrightarrow>
         block_value env nm (int nr) t_step c ddt d a b = (c * v) * block_entry d (a mod nm) (b mod nm)"
      using iv by (simp add: block_value_def)
    have mem: "int (b div nm) \<in> set (spl2 # js) \<longleftrightarrow> b div nm = j \<or> int (b div nm) \<in> set js"
      using j(1) by auto
    show ?thesis
    proof (cases "a div nm = i \<and> int (b div nm) \<in> set js")
      case True
      then show ?thesis using e2 mem by simp
    next
      case False
      then have "m' ! a ! b = m1 ! a ! b" using e2 by auto
      then show ?thesis using e1 bv mem False by auto
    qed
  qed
  then show ?case using ih[OF shape1] by simp
qed

lemma fill_rows_entries:
  assumes "\<forall>i \<in> set is. 0 \<le> i \<and> i < int nr"
    and "table_shape (nm * nr) (nm * nr) m"
    and "fill_rows env (int nm) (int nr) t_step c ddt d is m = Inr m'"
  shows "table_shape (nm * nr) (nm * nr) m'
       \<and> (\<forall>a < nm * nr. \<forall>b < nm * nr. m' ! a ! b =
            (if int (a div nm) \<in> set is
                \<and> int (b div nm) \<in> set [max 0 (int (a div nm) - spl_degree)..
                                          min (int (a div nm) + spl_degree + 1) (int nr) - 1]
             then block_value env nm (int nr) t_step c ddt d a b else m ! a ! b))"
  using assms
proof (induction "is" arbitrary: m)
  case Nil
  then show ?case by simp
next
  case (Cons spl1 "is")
  have "0 \<le> spl1" "spl1 < int nr" using Cons.prems(1) by simp_all
  then have "spl1 = int (nat spl1)" "nat spl1 < nr" by simp_all
  then obtain i where i: "spl1 = int i" "i < nr" by blast
  let ?js = "[max 0 (spl1 - spl_degree)..min (spl1 + spl_degree + 1) (int nr) - 1]"
  from Cons.prems(3) obtain m1 where
    m1: "fill_blocks env (int nm) (int nr) t_step c ddt d (int i) ?js m = Inr m1"
    and rest: "fill_rows env (int nm) (int nr) t_step c ddt d is m1 = Inr m'"
    unfolding i(1)[symmetric]
    by (cases "fill_blocks env (int nm) (int nr) t_step c ddt d spl1 ?js m") simp_all
  have js: "\<forall>j \<in> set ?js. 0 \<le> j \<and> j < int nr" by auto
  note blk = fill_blocks_entries[OF i(2) js Cons.prems(2) m1]
  have shape1: "table_shape (nm * nr) (nm * nr) m1" using blk by simp
  have is': "\<forall>i \<in> set is. 0 \<le> i \<and> i < int nr" using Cons.prems(1) by simp
  note ih = Cons.IH[OF is' shape1 rest]
  have "m' ! a ! b =
            (if int (a div nm) \<in> set (spl1 # is)
                \<and> int (b div nm) \<in> set [max 0 (int (a div nm) - spl_degree)..
                                          min (int (a div nm) + spl_degree + 1) (int nr) - 1]
             then block_value env nm (int nr) t_step c ddt d a b else m ! a ! b)"
    if ab: "a < nm * nr" "b < nm * nr" for a b
  proof -
    have e1: "m1 ! a ! b = (if a div nm = i \<and> int (b div nm) \<in> set ?js
             then block_value env nm (int nr) t_step c ddt d a b else m ! a ! b)"
      using blk ab by simp
    have e2: "m' ! a ! b = (if int (a div nm) \<in> set is
                \<and> int (b div nm) \<in> set [max 0 (int (a div nm) - spl_degree)..
                                          min (int (a div nm) + spl_degree + 1) (int nr) - 1]
             then block_value env nm (int nr) t_step c ddt d a b else m1 ! a ! b)"
      using ih ab by simp
    have eq: "a div nm = i \<longleftrightarrow> int (a div nm) = spl1" using i(1) by auto
    show ?thesis
    proof (cases "int (a div nm) = spl1")
      case True
      then show ?thesis using e1 e2 eq by simp
    next
      case False
      then show ?thesis using e1 e2 eq by simp
    qed
  qed
  then show ?case using ih by simp
qed

subsection \<open>The matrix that damp_matrix returns\<close>

lemma np_zeros2_shape: "np_zeros2 (int n) (int n) = Inr m \<Longrightarrow> table_shape n n m"
  by (auto simp: np_zeros2_def table_shape_def list_all_iff)

lemma zeros_entry: "a < n \<Longrightarrow> b < n \<Longrightarrow> replicate n (replicate n (0::real)) ! a ! b = 0"
  by simp

lemma damp_matrix_not_filled:
  assumes "damp_matrix env max_degree nr_splines t_step damp_factor damp_type ddt damp_dipole =
             Inr (matrix, damp_diag)"
    and "damp_factor = 0 \<or> nr_splines \<le> 0"
  shows "matrix = replicate (nat (((max_degree + 1) ^ 2 - 1) * nr_splines))
                    (replicate (nat (((max_degree + 1) ^ 2 - 1) * nr_splines)) 0)"
proof -
  have emp: "nr_splines \<le> 0 \<Longrightarrow> [0..nr_splines - 1] = []" by simp
  show ?thesis
    using assms
    by (auto simp: damp_matrix_def Let_def np_zeros2_def bind_err_def emp
             split: if_splits sum.splits)
qed

lemma damp_matrix_enabled:
  assumes "damp_matrix env max_degree nr_splines t_step damp_factor damp_type ddt damp_dipole =
             Inr (matrix, damp_diag)"
    and "damp_factor \<noteq> 0" "0 < nr_splines"
  shows "0 \<le> (max_degree + 1) ^ 2 - 1
       \<and> dampingtype env max_degree damp_type damp_dipole = Inr damp_diag
       \<and> fill_rows env ((max_degree + 1) ^ 2 - 1) nr_splines t_step damp_factor ddt damp_diag
           [0..nr_splines - 1]
           (replicate (nat (((max_degree + 1) ^ 2 - 1) * nr_splines))
              (replicate (nat (((max_degree + 1) ^ 2 - 1) * nr_splines)) 0)) = Inr matrix"
proof -
  let ?nm = "(max_degree + 1) ^ 2 - 1"
  have dim: "0 \<le> ?nm * nr_splines"
    using assms(1) by (auto simp: damp_matrix_def Let_def np_zeros2_def split: if_splits)
  have "0 \<le> ?nm"
    using dim assms(3) by (simp add: zero_le_mult_iff)
  moreover have "dampingtype env max_degree damp_type damp_dipole = Inr damp_diag
       \<and> fill_rows env ?nm nr_splines t_step damp_factor ddt damp_diag [0..nr_splines - 1]
           (replicate (nat (?nm * nr_splines)) (replicate (nat (?nm * nr_splines)) 0)) = Inr matrix"
    using assms(1,2) dim
    by (auto simp: damp_matrix_def Let_def np_zeros2_def bind_err_def
             split: if_splits sum.splits)
  ultimately show ?thesis by simp
qed

lemma damp_matrix_entries:
  assumes res: "damp_matrix env max_degree nr_splines t_step damp_factor damp_type ddt
                  damp_dipole = Inr (matrix, damp_diag)"
    and n: "n = nat (((max_degree + 1) ^ 2 - 1) * nr_splines)"
    and nm: "nm = nat ((max_degree + 1) ^ 2 - 1)"
  shows "table_shape n n matrix
       \<and> (\<forall>a < n. \<forall>b < n. matrix ! a ! b =
            (if damp_factor \<noteq> 0 \<and> 0 < nr_splines \<and> \<bar>int (a div nm) - int (b div nm)\<bar> \<le> 3
             then block_value env nm nr_splines t_step damp_factor ddt damp_diag a b else 0))"
proof (cases "damp_factor = 0 \<or> nr_splines \<le> 0")
  case True
  have "matrix = replicate n (replicate n 0)"
    using damp_matrix_not_filled[OF res True] n by simp
  then show ?thesis
    using True by (auto simp: table_shape_def list_all_iff)
next
  case False
  then have en: "damp_factor \<noteq> 0" "0 < nr_splines" by simp_all
  note parts = damp_matrix_enabled[OF res en]
  have "nr_splines = int (nat nr_splines)" "0 < nat nr_splines" using en(2) by simp_all
  then obtain nr where nr: "nr_splines = int nr" "0 < nr" by blast
  have nmi: "(max_degree + 1) ^ 2 - 1 = int nm" using parts nm by simp
  have nn: "n = nm * nr" using n nmi nr(1) by (simp add: nat_mult_distrib)
  have z: "table_shape (nm * nr) (nm * nr) (replicate n (replicate n (0::real)))"
    using nn by (simp add: table_shape_def list_all_iff)
  have rng: "\<forall>i \<in> set [0..int nr - 1]. 0 \<le> i \<and> i < int nr" by auto
  have fr: "fill_rows env (int nm) (int nr) t_step damp_factor ddt damp_diag [0..int nr - 1]
              (replicate n (replicate n 0)) = Inr matrix"
    using parts n unfolding nmi nr(1) by simp
  note ent = fill_rows_entries[OF rng z fr]
  have "matrix ! a ! b =
            (if damp_factor \<noteq> 0 \<and> 0 < nr_splines \<and> \<bar>int (a div nm) - int (b div nm)\<bar> \<le> 3
             then block_value env nm nr_splines t_step damp_factor ddt damp_diag a b else 0)"
    if ab: "a < n" "b < n" for a b
  proof -
    have da: "a div nm < nr" and db: "b div nm < nr"
      using ab nn by (simp_all add: less_mult_imp_div_less mult.commute)
    have m1: "int (a div nm) \<in> set [0..int nr - 1]" using da by auto
    have m2: "int (b div nm) \<in> set [max 0 (int (a div nm) - spl_degree)..
                                       min (int (a div nm) + spl_degree + 1) (int nr) - 1]
              \<longleftrightarrow> \<bar>int (a div nm) - int (b div nm)\<bar> \<le> 3"
      using db by (auto simp: spl_degree_def)
    have "matrix ! a ! b =
            (if int (a div nm) \<in> set [0..int nr - 1]
                \<and> int (b div nm) \<in> set [max 0 (int (a div nm) - spl_degree)..
                                          min (int (a div nm) + spl_degree + 1) (int nr) - 1]
             then block_value env nm (int nr) t_step damp_factor ddt damp_diag a b
             else replicate n (replicate n 0) ! a ! b)"
      using ent ab nn by simp
    then show ?thesis
      using m1 m2 en nr(1) ab by simp
  qed
  then show ?thesis using ent nn by simp
qed

subsection \<open>damp_matrix returns when its collaborators do\<close>

lemma integrator_returns:
  assumes "newton_cotes env (2 * (3 - ddt)) = Inr newcot"
    and "derivatives env t_step (2 * (3 - ddt) + 1) ddt = Inr spl"
    and "ddt \<noteq> 3"
    and "table_shape 4 (nat (2 * (3 - ddt) + 1)) spl"
    and "length newcot = nat (2 * (3 - ddt) + 1)"
  shows "\<exists>v. integrator env spl1 spl2 nr_splines t_step ddt = Inr v"
  using integrator_overlap_sum[OF assms] by blast

lemma fill_blocks_returns:
  assumes "i < nr" "\<forall>j \<in> set js. 0 \<le> j \<and> j < int nr"
    and "table_shape (nm * nr) (nm * nr) m"
    and "length d = nm \<or> length d = 1"
    and "\<And>spl1 spl2. \<exists>v. integrator env spl1 spl2 (int nr) t_step ddt = Inr v"
  shows "\<exists>m'. fill_blocks env (int nm) (int nr) t_step c ddt d (int i) js m = Inr m'"
  using assms(2,3)
proof (induction js arbitrary: m)
  case Nil
  show ?case by simp
next
  case (Cons spl2 js)
  have "0 \<le> spl2" "spl2 < int nr" using Cons.prems(1) by simp_all
  then have "spl2 = int (nat spl2)" "nat spl2 < nr" by simp_all
  then obtain j where j: "spl2 = int j" "j < nr" by blast
  obtain v where v: "integrator env (int i) spl2 (int nr) t_step ddt = Inr v"
    using assms(5) by blast
  obtain m1 where m1: "assign_block m (int i * int nm) ((int i + 1) * int nm)
      (int j * int nm) ((int j + 1) * int nm) (scale (c * v) (np_diag d)) = Inr m1"
    using assign_diag_block_returns[OF Cons.prems(2) assms(1) j(2) assms(4)] by blast
  have shape1: "table_shape (nm * nr) (nm * nr) m1"
    using assign_diag_block[OF Cons.prems(2) assms(1) j(2) m1] by simp
  have js: "\<forall>j \<in> set js. 0 \<le> j \<and> j < int nr" using Cons.prems(1) by simp
  from Cons.IH[OF js shape1] obtain m' where
    "fill_blocks env (int nm) (int nr) t_step c ddt d (int i) js m1 = Inr m'" by blast
  then show ?case using v m1 j(1) by simp
qed

lemma fill_rows_returns:
  assumes "\<forall>i \<in> set is. 0 \<le> i \<and> i < int nr"
    and "table_shape (nm * nr) (nm * nr) m"
    and "length d = nm \<or> length d = 1"
    and "\<And>spl1 spl2. \<exists>v. integrator env spl1 spl2 (int nr) t_step ddt = Inr v"
  shows "\<exists>m'. fill_rows env (int nm) (int nr) t_step c ddt d is m = Inr m'"
  using assms(1,2)
proof (induction "is" arbitrary: m)
  case Nil
  show ?case by simp
next
  case (Cons spl1 "is")
  have "0 \<le> spl1" "spl1 < int nr" using Cons.prems(1) by simp_all
  then have "spl1 = int (nat spl1)" "nat spl1 < nr" by simp_all
  then obtain i where i: "spl1 = int i" "i < nr" by blast
  let ?js = "[max 0 (int i - spl_degree)..min (int i + spl_degree + 1) (int nr) - 1]"
  have js: "\<forall>j \<in> set ?js. 0 \<le> j \<and> j < int nr" by auto
  obtain m1 where m1: "fill_blocks env (int nm) (int nr) t_step c ddt d (int i) ?js m = Inr m1"
    using fill_blocks_returns[OF i(2) js Cons.prems(2) assms(3,4)] by blast
  have shape1: "table_shape (nm * nr) (nm * nr) m1"
    using fill_blocks_entries[OF i(2) js Cons.prems(2) m1] by simp
  have is': "\<forall>i \<in> set is. 0 \<le> i \<and> i < int nr" using Cons.prems(1) by simp
  from Cons.IH[OF is' shape1] obtain m' where
    "fill_rows env (int nm) (int nr) t_step c ddt d is m1 = Inr m'" by blast
  then show ?case using m1 i(1) by simp
qed

lemma damp_matrix_returns:
  assumes "newton_cotes env (2 * (3 - ddt)) = Inr newcot"
    and "derivatives env t_step (2 * (3 - ddt) + 1) ddt = Inr spl"
    and "ddt \<noteq> 3"
    and "table_shape 4 (nat (2 * (3 - ddt) + 1)) spl"
    and "length newcot = nat (2 * (3 - ddt) + 1)"
    and "dampingtype env max_degree damp_type damp_dipole = Inr d"
    and "int (length d) = (max_degree + 1) ^ 2 - 1"
    and "0 \<le> nr_splines" "damp_factor \<noteq> 0"
  shows "\<exists>matrix. damp_matrix env max_degree nr_splines t_step damp_factor damp_type ddt
           damp_dipole = Inr (matrix, d)"
proof -
  let ?nm = "length d"
  have "nr_splines = int (nat nr_splines)" using assms(8) by simp
  then obtain nr where nri: "nr_splines = int nr" by blast
  have nmi: "(max_degree + 1) ^ 2 - 1 = int ?nm" using assms(7) by simp
  have dim: "int ?nm * int nr = int (?nm * nr)" by simp
  have z: "np_zeros2 (int ?nm * int nr) (int ?nm * int nr) =
             Inr (replicate (?nm * nr) (replicate (?nm * nr) 0))"
    unfolding dim np_zeros2_def by (simp del: of_nat_mult)
  have zs: "table_shape (?nm * nr) (?nm * nr) (replicate (?nm * nr) (replicate (?nm * nr) (0::real)))"
    by (simp add: table_shape_def list_all_iff)
  have rng: "\<forall>i \<in> set [0..int nr - 1]. 0 \<le> i \<and> i < int nr" by auto
  have intg: "\<exists>v. integrator env spl1 spl2 (int nr) t_step ddt = Inr v" for spl1 spl2
    by (rule integrator_returns[OF assms(1-5)])
  obtain m' where m': "fill_rows env (int ?nm) (int nr) t_step damp_factor ddt d
       [0..int nr - 1] (replicate (?nm * nr) (replicate (?nm * nr) 0)) = Inr m'"
    using fill_rows_returns[OF rng zs _ intg, of d damp_factor] by blast
  have "damp_matrix env max_degree (int nr) t_step damp_factor damp_type ddt damp_dipole =
          Inr (m', d)"
    unfolding damp_matrix_def Let_def nmi
    by (simp add: z assms(6,9) m' del: of_nat_mult)
  then show ?thesis using nri by blast
qed

lemma reference_dampingtype_1:
  "dampingtype reference_env 1 ''Uniform'' True = Inr [1, 1, 1]"
  unfolding reference_env_def by code_simp

text \<open>The example of section 8 of the spec returns for every factor but zero.\<close>

lemma reference_damp_matrix_returns_any:
  "c \<noteq> 0 \<Longrightarrow>
   \<exists>matrix. damp_matrix reference_env 1 5 1 c ''Uniform'' 0 True = Inr (matrix, [1, 1, 1])"
  by (rule damp_matrix_returns[where newcot = "[41/140, 54/35, 27/140, 68/35, 27/140, 54/35, 41/140]"
        and spl = "[[0, 1 / 1296, 1 / 162, 1 / 48, 4 / 81, 125 / 1296, 1 / 6],
      [1 / 6, 113 / 432, 10 / 27, 23 / 48, 31 / 54, 277 / 432, 2 / 3],
      [2 / 3, 277 / 432, 31 / 54, 23 / 48, 10 / 27, 113 / 432, 1 / 6],
      [1 / 6, 125 / 1296, 4 / 81, 1 / 48, 1 / 162, 1 / 1296, 0]]"])
     (simp_all add: reference_newton_cotes_6 reference_derivatives_7 reference_dampingtype_1
        table_shape_def)

subsection \<open>Claims about damp_matrix\<close>



text \<open>
  C3. Whenever \<open>damp_matrix\<close> returns, every entry \<open>(x, y)\<close> of a block \<open>(i, j)\<close>
  with \<open>|i - j| > 3\<close> is zero.
\<close>

theorem damp_matrix_banded:
  assumes "damp_matrix env max_degree nr_splines t_step damp_factor damp_type ddt damp_dipole =
             Inr (matrix, damp_diag)"
    and "int i < nr_splines" "int j < nr_splines" "3 < \<bar>int i - int j\<bar>"
    and "int x < (max_degree + 1) ^ 2 - 1" "int y < (max_degree + 1) ^ 2 - 1"
  shows "matrix ! (i * nat ((max_degree + 1) ^ 2 - 1) + x)
                ! (j * nat ((max_degree + 1) ^ 2 - 1) + y) = 0"
proof -
  let ?n = "nat (((max_degree + 1) ^ 2 - 1) * nr_splines)"
  let ?nm = "nat ((max_degree + 1) ^ 2 - 1)"
  note ent = damp_matrix_entries[OF assms(1) refl refl]
  have x: "x < ?nm" and y: "y < ?nm" using assms(5,6) by simp_all
  have "0 \<le> (max_degree + 1) ^ 2 - 1" using assms(5) by linarith
  then have nmi: "(max_degree + 1) ^ 2 - 1 = int ?nm" by (rule nat_0_le[symmetric])
  have "nr_splines = int (nat nr_splines)" using assms(2) by simp
  then obtain nr where nr: "nr_splines = int nr" by blast
  have ij: "i < nr" "j < nr" using assms(2,3) nr by simp_all
  have n: "?n = ?nm * nr"
    using nr nmi by (metis nat_int of_nat_mult)
  have bound: "k * ?nm + z < ?nm * nr" if "k < nr" "z < ?nm" for k z
  proof -
    have "k * ?nm + z < k * ?nm + ?nm" using that(2) by simp
    also have "\<dots> = Suc k * ?nm" by simp
    also have "\<dots> \<le> nr * ?nm" using that(1) by (intro mult_le_mono1) simp
    finally show ?thesis by (simp add: mult.commute)
  qed
  have a: "i * ?nm + x < ?n" and b: "j * ?nm + y < ?n"
    using bound[OF ij(1) x] bound[OF ij(2) y] n by simp_all
  have da: "(i * ?nm + x) div ?nm = i" and db: "(j * ?nm + y) div ?nm = j"
    using x y by simp_all
  have "matrix ! (i * ?nm + x) ! (j * ?nm + y) =
          (if damp_factor \<noteq> 0 \<and> 0 < nr_splines
              \<and> \<bar>int ((i * ?nm + x) div ?nm) - int ((j * ?nm + y) div ?nm)\<bar> \<le> 3
           then block_value env ?nm nr_splines t_step damp_factor ddt damp_diag
                  (i * ?nm + x) (j * ?nm + y) else 0)"
    using ent a b by blast
  then show ?thesis
    unfolding da db using assms(4) by simp
qed

theorem damp_matrix_banded_witness:
  "\<exists>matrix. damp_matrix reference_env 1 5 1 (1 / 1000) ''Uniform'' 0 True = Inr (matrix, [1, 1, 1])
     \<and> 3 < \<bar>int 0 - int 4\<bar>
     \<and> matrix ! (0 * nat ((1 + 1) ^ 2 - 1) + 1) ! (4 * nat ((1 + 1) ^ 2 - 1) + 1) = 0"
proof -
  obtain matrix where
    res: "damp_matrix reference_env 1 5 1 (1 / 1000) ''Uniform'' 0 True = Inr (matrix, [1, 1, 1])"
    using reference_damp_matrix_returns_any[of "1 / 1000"] by auto
  have "matrix ! (0 * nat ((1 + 1) ^ 2 - 1) + 1) ! (4 * nat ((1 + 1) ^ 2 - 1) + 1) = 0"
    by (rule damp_matrix_banded[OF res]) simp_all
  then show ?thesis using res by auto
qed

text \<open>
  C4. With \<open>damp_factor = 0\<close>, \<open>damp_matrix\<close> returns the zero matrix of dimension
  \<open>nm_total * nr_splines\<close> and the empty weight vector, whatever the other
  arguments and the collaborators, as long as that dimension is not negative.
\<close>

theorem damp_matrix_disabled:
  assumes "0 \<le> ((max_degree + 1) ^ 2 - 1) * nr_splines"
  shows "damp_matrix env max_degree nr_splines t_step 0 damp_type ddt damp_dipole =
           Inr (replicate (nat (((max_degree + 1) ^ 2 - 1) * nr_splines))
                  (replicate (nat (((max_degree + 1) ^ 2 - 1) * nr_splines)) 0), [])"
  using assms by (simp add: damp_matrix_def Let_def np_zeros2_def)

theorem damp_matrix_disabled_witness:
  "(0::int) \<le> ((1 + 1) ^ 2 - 1) * 5
   \<and> damp_matrix reference_env 1 5 1 0 ''Uniform'' 0 True =
       Inr (replicate 15 (replicate 15 0), [])"
  using damp_matrix_disabled[of 1 5 reference_env 1 "''Uniform''" 0 True]
  by simp

subsection \<open>Scaling the damping factor\<close>














subsection \<open>Derivative orders out of range\<close>

lemma reference_newton_cotes_negative: "newton_cotes reference_env (- 2) = Inl IndexError"
  by (simp add: reference_env_def scipy_newton_cotes_def)

text \<open>
  C6, as amended. Neither function checks \<open>ddt\<close>. When \<open>newton_cotes\<close> raises an error
  for the order \<open>2 * (3 - ddt)\<close>, \<open>integrator\<close> fails with that error, and so does
  \<open>damp_matrix\<close> with a non-zero factor and at least one spline, returning no matrix;
  with \<open>damp_factor = 0\<close>, \<open>damp_matrix\<close> returns the zero matrix for the same \<open>ddt\<close>.
\<close>

theorem ddt_failure_from_newton_cotes:
  assumes "newton_cotes env (2 * (3 - ddt)) = Inl e"
    and "dampingtype env max_degree damp_type damp_dipole = Inr damp_diag"
    and "damp_factor \<noteq> 0" "0 < nr_splines" "0 \<le> (max_degree + 1) ^ 2 - 1"
  shows "integrator env spl1 spl2 nr_splines t_step ddt = Inl e
       \<and> damp_matrix env max_degree nr_splines t_step damp_factor damp_type ddt damp_dipole = Inl e
       \<and> damp_matrix env max_degree nr_splines t_step 0 damp_type ddt damp_dipole =
           Inr (replicate (nat (((max_degree + 1) ^ 2 - 1) * nr_splines))
                  (replicate (nat (((max_degree + 1) ^ 2 - 1) * nr_splines)) 0), [])"
proof -
  let ?nm = "(max_degree + 1) ^ 2 - 1"
  let ?z = "replicate (nat (?nm * nr_splines)) (replicate (nat (?nm * nr_splines)) (0::real))"
  have intg: "integrator env s1 s2 nr_splines t_step ddt = Inl e" for s1 s2
    using assms(1) by (simp add: integrator_def Let_def spl_degree_def)
  have dim: "0 \<le> ?nm * nr_splines" using assms(4,5) by simp
  then have z: "np_zeros2 (?nm * nr_splines) (?nm * nr_splines) = Inr ?z"
    by (simp add: np_zeros2_def)
  have rows: "[0..nr_splines - 1] = 0 # [1..nr_splines - 1]"
    using assms(4) by (simp add: upto_rec1)
  have cols: "[max 0 (0 - spl_degree)..min (0 + spl_degree + 1) nr_splines - 1] =
              0 # [1..min 4 nr_splines - 1]"
    using assms(4) by (simp add: spl_degree_def upto_rec1)
  have "fill_rows env ?nm nr_splines t_step damp_factor ddt damp_diag [0..nr_splines - 1] ?z =
          Inl e"
    unfolding rows fill_rows.simps cols fill_blocks.simps by (simp add: intg)
  then have "damp_matrix env max_degree nr_splines t_step damp_factor damp_type ddt damp_dipole =
               Inl e"
    using assms(2,3) by (simp add: damp_matrix_def Let_def z)
  moreover have "damp_matrix env max_degree nr_splines t_step 0 damp_type ddt damp_dipole =
                   Inr (?z, [])"
    by (simp add: damp_matrix_def Let_def z)
  ultimately show ?thesis using intg by simp
qed

theorem ddt_failure_from_newton_cotes_witness:
  "integrator reference_env 0 0 5 1 4 = Inl IndexError
   \<and> damp_matrix reference_env 1 5 1 (1 / 1000) ''Uniform'' 4 True = Inl IndexError
   \<and> damp_matrix reference_env 1 5 1 0 ''Uniform'' 4 True =
       Inr (replicate 15 (replicate 15 0), [])"
  using ddt_failure_from_newton_cotes[of reference_env 4 IndexError 1 "''Uniform''" True
          "[1, 1, 1]" "1 / 1000" 5 0 0 1]
    reference_newton_cotes_negative reference_dampingtype_1
  by simp

text \<open>
  C6 as stated fails: with \<open>damp_factor = 0\<close> and \<open>ddt = 7\<close>, \<open>damp_matrix\<close> returns
  the zero matrix and raises no error.
\<close>

theorem damp_matrix_ddt_unchecked_counterexample:
  "damp_matrix reference_env 1 5 1 0 ''Uniform'' 7 True =
     Inr (replicate 15 (replicate 15 0), [])"
  by (simp add: damp_matrix_def Let_def np_zeros2_def)

end
